theory Spec2Isabelle
  imports Main "HOL-Library.Word"
begin

section \<open>Password hashing and verification (packages/hypermodel/src/utils.ts)\<close>

text \<open>
  The module has three exported functions, \<open>generateHexToken\<close>, \<open>hashPassword\<close> and
  \<open>verifyPassword\<close>, and one private helper, \<open>parsePassword\<close> (the legacy hasher).
  They are embedded below as HOL functions. The functions are \<open>async\<close>: a rejected
  promise (a \<open>throw\<close>, a failed \<open>strictEqual\<close>, a failing primitive) is the \<open>Inl\<close>
  branch of the result, a resolved promise the \<open>Inr\<close> branch.

  The code calls three primitives of Node's \<open>crypto\<close> module. \<open>randomBytes\<close> and
  \<open>pbkdf2\<close> are parameters of the model (nothing is assumed about the bytes they
  return unless a theorem says so); \<open>timingSafeEqual\<close> is defined. Every function
  returns, next to its result, the list of calls to these primitives in the order in
  which they were made, so that "before any derivation" and "the salt passed to the KDF"
  are statements about that list.
\<close>

subsection \<open>JavaScript strings and buffers\<close>

text \<open>
  A JavaScript string is a sequence of UTF-16 code units and \<open>.length\<close> counts them;
  a \<open>Buffer\<close> is a sequence of bytes.
\<close>

type_synonym u16 = "16 word"
type_synonym jsstring = "u16 list"
type_synonym byte = "8 word"
type_synonym buffer = "byte list"

text \<open>A string literal of the source (ASCII), as code units.\<close>

definition js :: "string \<Rightarrow> jsstring" where
  "js s = map of_char s"

definition dollar :: u16 where
  "dollar = 0x24"

text \<open>
  \<open>WhiteSpace\<close> and \<open>LineTerminator\<close> of ECMAScript: what \<open>String.prototype.trim\<close>
  strips and what \<open>parseInt\<close> skips at the start.
\<close>

definition isWhiteSpace :: "u16 \<Rightarrow> bool" where
  "isWhiteSpace c \<longleftrightarrow>
     c \<in> set [0x09, 0x0A, 0x0B, 0x0C, 0x0D, 0x20, 0xA0, 0x1680,
               0x2028, 0x2029, 0x202F, 0x205F, 0x3000, 0xFEFF]
     \<or> (0x2000 \<le> c \<and> c \<le> 0x200A)"

definition trim :: "jsstring \<Rightarrow> jsstring" where
  "trim s = rev (dropWhile isWhiteSpace (rev (dropWhile isWhiteSpace s)))"

text \<open>
  \<open>s.split(sep)\<close> for a separator of one code unit: the fields between the
  separators, \<open>[""]\<close> for the empty string.
\<close>

fun String_split :: "u16 \<Rightarrow> jsstring \<Rightarrow> jsstring list" where
  "String_split sep [] = [[]]"
| "String_split sep (c # cs) =
     (if c = sep then [] # String_split sep cs
      else (case String_split sep cs of
              [] \<Rightarrow> [[c]]
            | f # fs \<Rightarrow> (c # f) # fs))"

text \<open>
  Array destructuring \<open>const [a, b, c, d] = xs\<close>: the element at the index, or
  \<open>undefined\<close> (\<open>None\<close>) when the array is shorter; further elements are ignored.
\<close>

definition destructure :: "'a list \<Rightarrow> nat \<Rightarrow> 'a option" where
  "destructure xs i = (if i < length xs then Some (xs ! i) else None)"

text \<open>
  \<open>parseInt(s, 10)\<close>: leading white space is skipped, then an optional sign, then the
  longest run of decimal digits; what follows the digits is ignored. Without a digit the
  result is \<open>NaN\<close>, here \<open>None\<close>, so \<open>isNaN (parseInt (s, 10))\<close> is
  \<open>parseInt s = None\<close>. The value is the exact integer (JavaScript rounds a value
  beyond \<open>2^53\<close> to a double, which is still not \<open>NaN\<close>).
\<close>

definition isDigit :: "u16 \<Rightarrow> bool" where
  "isDigit c \<longleftrightarrow> 0x30 \<le> c \<and> c \<le> 0x39"

definition digitsValue :: "jsstring \<Rightarrow> int" where
  "digitsValue z = foldl (\<lambda>acc c. acc * 10 + (int (unat c) - 48)) 0 z"

definition parseInt :: "jsstring \<Rightarrow> int option" where
  "parseInt s =
     (let S = dropWhile isWhiteSpace s;
          sign = (case S of [] \<Rightarrow> 1 | c # _ \<Rightarrow> if c = 0x2D then - 1 else 1);
          S' = (case S of [] \<Rightarrow> [] | c # cs \<Rightarrow> if c = 0x2D \<or> c = 0x2B then cs else S);
          Z = takeWhile isDigit S'
      in if Z = [] then None else Some (sign * digitsValue Z))"

text \<open>
  The conversion of a number to a string inside a template literal, for the integers
  the code interpolates (the iteration counts).
\<close>

fun decimal :: "nat \<Rightarrow> jsstring" where
  "decimal n =
     (if n < 10 then [of_nat (48 + n)]
      else decimal (n div 10) @ [of_nat (48 + n mod 10)])"

declare decimal.simps [simp del]

definition Number_toString :: "int \<Rightarrow> jsstring" where
  "Number_toString i = (if i < 0 then 0x2D # decimal (nat (- i)) else decimal (nat i))"

subsection \<open>Buffer encodings\<close>

text \<open>
  \<open>buf.toString('hex')\<close> writes two lower-case hexadecimal digits per byte.
  \<open>Buffer.from(s, 'hex')\<close> never throws: it reads the string two characters at a
  time and stops at the first pair that is not two hexadecimal digits, and a last single
  character is dropped. Node's decoders, for hexadecimal and for base64 text, look a
  character up in a table of 256 entries by the low byte of its code unit.
\<close>

datatype encoding = Hex | Base64

definition hexChar :: "nat \<Rightarrow> u16" where
  "hexChar n = (if n < 10 then of_nat (48 + n) else of_nat (87 + n))"

definition toString_hex :: "buffer \<Rightarrow> jsstring" where
  "toString_hex bs = concat (map (\<lambda>b. [hexChar (unat b div 16), hexChar (unat b mod 16)]) bs)"

definition lowByte :: "u16 \<Rightarrow> byte" where
  "lowByte c = ucast c"

definition unhex :: "byte \<Rightarrow> nat option" where
  "unhex x =
     (if 0x30 \<le> x \<and> x \<le> 0x39 then Some (unat x - 48)
      else if 0x61 \<le> x \<and> x \<le> 0x66 then Some (unat x - 87)
      else if 0x41 \<le> x \<and> x \<le> 0x46 then Some (unat x - 55)
      else None)"

fun from_hex :: "jsstring \<Rightarrow> buffer" where
  "from_hex (c1 # c2 # cs) =
     (case unhex (lowByte c1) of
        None \<Rightarrow> []
      | Some a \<Rightarrow>
          (case unhex (lowByte c2) of
             None \<Rightarrow> []
           | Some b \<Rightarrow> of_nat (a * 16 + b) # from_hex cs))"
| "from_hex _ = []"

text \<open>
  \<open>buf.toString('base64')\<close> is the standard alphabet with \<open>=\<close> padding.
  \<open>Buffer.from(s, 'base64')\<close> never throws either: it stops at the first \<open>=\<close>,
  skips every character outside the alphabet (white space included), accepts the
  URL-safe \<open>-\<close> and \<open>_\<close> as 62 and 63, and packs the six-bit values it has read;
  a last group of one value gives no byte.
\<close>

definition base64Char :: "nat \<Rightarrow> u16" where
  "base64Char n =
     (if n < 26 then of_nat (65 + n)
      else if n < 52 then of_nat (71 + n)
      else if n < 62 then of_nat (n - 4)
      else if n = 62 then 0x2B
      else 0x2F)"

fun toString_base64 :: "buffer \<Rightarrow> jsstring" where
  "toString_base64 (a # b # c # rest) =
     [base64Char (unat a div 4),
      base64Char ((unat a mod 4) * 16 + unat b div 16),
      base64Char ((unat b mod 16) * 4 + unat c div 64),
      base64Char (unat c mod 64)] @ toString_base64 rest"
| "toString_base64 [a, b] =
     [base64Char (unat a div 4),
      base64Char ((unat a mod 4) * 16 + unat b div 16),
      base64Char ((unat b mod 16) * 4),
      0x3D]"
| "toString_base64 [a] =
     [base64Char (unat a div 4),
      base64Char ((unat a mod 4) * 16),
      0x3D, 0x3D]"
| "toString_base64 [] = []"

definition unbase64 :: "byte \<Rightarrow> nat option" where
  "unbase64 x =
     (if 0x41 \<le> x \<and> x \<le> 0x5A then Some (unat x - 65)
      else if 0x61 \<le> x \<and> x \<le> 0x7A then Some (unat x - 71)
      else if 0x30 \<le> x \<and> x \<le> 0x39 then Some (unat x + 4)
      else if x = 0x2B \<or> x = 0x2D then Some 62
      else if x = 0x2F \<or> x = 0x5F then Some 63
      else None)"

fun packSextets :: "nat list \<Rightarrow> buffer" where
  "packSextets (s0 # s1 # s2 # s3 # rest) =
     [of_nat (s0 * 4 + s1 div 16),
      of_nat ((s1 mod 16) * 16 + s2 div 4),
      of_nat ((s2 mod 4) * 64 + s3)] @ packSextets rest"
| "packSextets [s0, s1, s2] =
     [of_nat (s0 * 4 + s1 div 16),
      of_nat ((s1 mod 16) * 16 + s2 div 4)]"
| "packSextets [s0, s1] = [of_nat (s0 * 4 + s1 div 16)]"
| "packSextets _ = []"

definition sextets :: "jsstring \<Rightarrow> nat list" where
  "sextets s =
     List.map_filter (\<lambda>c. unbase64 (lowByte c)) (takeWhile (\<lambda>c. lowByte c \<noteq> 0x3D) s)"

definition from_base64 :: "jsstring \<Rightarrow> buffer" where
  "from_base64 s = packSextets (sextets s)"

definition Buffer_from :: "jsstring \<Rightarrow> encoding \<Rightarrow> buffer" where
  "Buffer_from s enc = (case enc of Hex \<Rightarrow> from_hex s | Base64 \<Rightarrow> from_base64 s)"

definition Buffer_toString :: "buffer \<Rightarrow> encoding \<Rightarrow> jsstring" where
  "Buffer_toString b enc = (case enc of Hex \<Rightarrow> toString_hex b | Base64 \<Rightarrow> toString_base64 b)"

subsection \<open>The crypto primitives\<close>

text \<open>
  \<open>pbkdf2\<close> takes its salt as a string or as a buffer, and the code passes one or the
  other. A failure of \<open>randomBytes\<close> or \<open>pbkdf2\<close> carries Node's error code.
  \<open>timingSafeEqual\<close> throws when its two buffers differ in length.
\<close>

datatype salt_arg = SaltString jsstring | SaltBuffer buffer

type_synonym backend_error = string

type_synonym random_source = "nat \<Rightarrow> backend_error + buffer"

type_synonym kdf = "jsstring \<Rightarrow> salt_arg \<Rightarrow> int \<Rightarrow> nat \<Rightarrow> jsstring \<Rightarrow> backend_error + buffer"

datatype call =
    RandomBytes nat
  | Pbkdf2 jsstring salt_arg int nat jsstring
  | TimingSafeEqual buffer buffer

datatype error =
    Error string
  | AssertionError string
  | ERR_CRYPTO_TIMING_SAFE_EQUAL_LENGTH
  | CryptoBackendError backend_error

definition timingSafeEqual :: "buffer \<Rightarrow> buffer \<Rightarrow> error + bool" where
  "timingSafeEqual a b =
     (if length a \<noteq> length b then Inl ERR_CRYPTO_TIMING_SAFE_EQUAL_LENGTH else Inr (a = b))"

subsection \<open>The module\<close>

record options =
  legacy :: "bool option"

definition generateHexToken :: "random_source \<Rightarrow> nat \<Rightarrow> (error + jsstring) \<times> call list" where
  "generateHexToken randomBytes size' =
     (case randomBytes size' of
        Inl e \<Rightarrow> (Inl (CryptoBackendError e), [RandomBytes size'])
      | Inr bytes \<Rightarrow> (Inr (toString_hex bytes), [RandomBytes size']))"

definition parsePassword ::
  "random_source \<Rightarrow> kdf \<Rightarrow> jsstring \<Rightarrow> (error + jsstring) \<times> call list" where
  "parsePassword randomBytes pbkdf2 password =
     (case randomBytes 16 of
        Inl e \<Rightarrow> (Inl (CryptoBackendError e), [RandomBytes 16])
      | Inr bytes \<Rightarrow>
          (let salt = toString_hex bytes;
               iterations = 100000;
               keylen = 64;
               digest = js ''sha256'';
               calls = [RandomBytes 16, Pbkdf2 password (SaltString salt) iterations keylen digest]
           in case pbkdf2 password (SaltString salt) iterations keylen digest of
                Inl e \<Rightarrow> (Inl (CryptoBackendError e), calls)
              | Inr derivedKey \<Rightarrow>
                  (Inr (js ''pbkdf2_'' @ digest @ [dollar] @ Number_toString iterations @ [dollar]
                          @ salt @ [dollar] @ toString_hex derivedKey),
                   calls)))"

definition hashPassword ::
  "random_source \<Rightarrow> kdf \<Rightarrow> jsstring \<Rightarrow> options \<Rightarrow> (error + jsstring) \<times> call list" where
  "hashPassword randomBytes pbkdf2 plainTextPassword options =
     (if length (trim plainTextPassword) < 6
      then (Inl (Error ''Password invalid: too short''), [])
      else if legacy options = Some True then parsePassword randomBytes pbkdf2 plainTextPassword
      else
        (case randomBytes 16 of
           Inl e \<Rightarrow> (Inl (CryptoBackendError e), [RandomBytes 16])
         | Inr saltBuffer \<Rightarrow>
             (let iterations = 150000;
                  keylen = 32;
                  digest = js ''sha256'';
                  calls = [RandomBytes 16,
                           Pbkdf2 plainTextPassword (SaltBuffer saltBuffer) iterations keylen digest]
              in case pbkdf2 plainTextPassword (SaltBuffer saltBuffer) iterations keylen digest of
                   Inl e \<Rightarrow> (Inl (CryptoBackendError e), calls)
                 | Inr derivedKeyBuffer \<Rightarrow>
                     (let salt = Buffer_toString saltBuffer Base64;
                          derivedKey = Buffer_toString derivedKeyBuffer Base64
                      in (Inr (js ''pbkdf2_'' @ digest @ [dollar] @ Number_toString iterations
                                 @ [dollar] @ salt @ [dollar] @ derivedKey),
                          calls)))))"

definition verifyPassword ::
  "kdf \<Rightarrow> jsstring \<Rightarrow> jsstring \<Rightarrow> options \<Rightarrow> (error + bool) \<times> call list" where
  "verifyPassword pbkdf2 plainTextPassword passwordHash options =
     (let legacy' = (legacy options = Some True);
          fields = String_split dollar passwordHash;
          algorithm = destructure fields 0;
          iterations = destructure fields 1;
          salt = destructure fields 2;
          derivedKey = destructure fields 3
      in if algorithm \<noteq> Some (js ''pbkdf2_sha256'')
         then (Inl (AssertionError ''Invalid algorithm.''), [])
         else
           (case iterations of
              None \<Rightarrow> (Inl (AssertionError ''Invalid password format.''), [])
            | Some iterations \<Rightarrow>
           (case salt of
              None \<Rightarrow> (Inl (AssertionError ''Invalid password format.''), [])
            | Some salt \<Rightarrow>
           (case derivedKey of
              None \<Rightarrow> (Inl (AssertionError ''Invalid password format.''), [])
            | Some derivedKey \<Rightarrow>
           (case parseInt iterations of
              None \<Rightarrow> (Inl (AssertionError ''Invalid password format.''), [])
            | Some n \<Rightarrow>
                (let saltBuffer = Buffer_from salt (if legacy' then Hex else Base64);
                     derivedKeyBuffer = Buffer_from derivedKey (if legacy' then Hex else Base64);
                     digest = js ''sha256'';
                     saltArg = (if legacy' then SaltString (Buffer_toString saltBuffer Hex)
                                else SaltBuffer saltBuffer);
                     derive = Pbkdf2 plainTextPassword saltArg n (length derivedKeyBuffer) digest
                 in case pbkdf2 plainTextPassword saltArg n (length derivedKeyBuffer) digest of
                      Inl e \<Rightarrow> (Inl (CryptoBackendError e), [derive])
                    | Inr password \<Rightarrow>
                        (timingSafeEqual password derivedKeyBuffer,
                         [derive, TimingSafeEqual password derivedKeyBuffer])))))))"

subsection \<open>What the theorems assume of the primitives\<close>

text \<open>
  The interface of the two parameters: \<open>randomBytes n\<close> returns \<open>n\<close> bytes;
  \<open>pbkdf2\<close>, given an iteration count and a key length from which Node derives a
  key (both from 1 and below \<open>2^31\<close>), returns exactly \<open>keylen\<close> bytes. Nothing is
  asked of it at the key length 0, where Node's \<open>pbkdf2\<close> fails.
  \<open>pbkdf2_length\<close> is the weaker half: whenever \<open>pbkdf2\<close> returns, it returns
  \<open>keylen\<close> bytes.
\<close>

definition randomBytes_contract :: "random_source \<Rightarrow> bool" where
  "randomBytes_contract r \<longleftrightarrow> (\<forall>n. \<exists>bs. r n = Inr bs \<and> length bs = n)"

definition pbkdf2_contract :: "kdf \<Rightarrow> bool" where
  "pbkdf2_contract k \<longleftrightarrow>
     (\<forall>p s i n. 1 \<le> i \<and> i < 2 ^ 31 \<and> 1 \<le> n \<and> int n < 2 ^ 31 \<longrightarrow>
        (\<exists>key. k p s i n (js ''sha256'') = Inr key \<and> length key = n))"

definition pbkdf2_length :: "kdf \<Rightarrow> bool" where
  "pbkdf2_length k \<longleftrightarrow> (\<forall>p s i n d key. k p s i n d = Inr key \<longrightarrow> length key = n)"

text \<open>
  Two stand-ins for concrete evaluation. \<open>demo_randomBytes\<close> counts up from 0.
  \<open>demo_pbkdf2\<close> fails where Node's \<open>pbkdf2\<close> fails: with
  \<open>ERR_OUT_OF_RANGE\<close> for an iteration count below 1 or an argument from \<open>2^31\<close>,
  and with \<open>ERR_CRYPTO_OPERATION_FAILED\<close> ("Deriving bits failed") for the key length
  0. Otherwise it returns \<open>keylen\<close> bytes that depend on the password and on the salt.
\<close>

definition demo_randomBytes :: random_source where
  "demo_randomBytes n = Inr (map of_nat [0..<n])"

definition demo_pbkdf2 :: kdf where
  "demo_pbkdf2 password salt iterations keylen digest =
     (if iterations < 1 \<or> 2 ^ 31 \<le> iterations \<or> 2 ^ 31 \<le> int keylen
      then Inl ''ERR_OUT_OF_RANGE''
      else if keylen = 0 then Inl ''ERR_CRYPTO_OPERATION_FAILED''
      else Inr (map (\<lambda>i. of_nat (sum_list (map unat password)
                  + (case salt of
                       SaltString s \<Rightarrow> sum_list (map unat s)
                     | SaltBuffer b \<Rightarrow> 7 * sum_list (map unat b))
                  + i)) [0..<keylen]))"

subsection \<open>Notions used in the statements\<close>





text \<open>
  The encoded hashes that the checks at the start of \<open>verifyPassword\<close> turn down:
  fewer than four fields, another algorithm, or an iteration field for which
  \<open>parseInt\<close> gives \<open>NaN\<close>.
\<close>

definition rejected :: "jsstring \<Rightarrow> bool" where
  "rejected h \<longleftrightarrow>
     (let fields = String_split dollar h
      in length fields < 4 \<or> fields ! 0 \<noteq> js ''pbkdf2_sha256'' \<or> parseInt (fields ! 1) = None)"

text \<open>
  The grammar of the specification (section 4.2, step 1): exactly four fields, the
  algorithm literal, an iteration count that is a positive base-10 integer, no empty
  field. And a well-formed hexadecimal field: an even number of hexadecimal digits.
\<close>

definition isHexDigit :: "u16 \<Rightarrow> bool" where
  "isHexDigit c \<longleftrightarrow>
     (0x30 \<le> c \<and> c \<le> 0x39) \<or> (0x61 \<le> c \<and> c \<le> 0x66) \<or> (0x41 \<le> c \<and> c \<le> 0x46)"

definition positive_decimal :: "jsstring \<Rightarrow> bool" where
  "positive_decimal s \<longleftrightarrow> s \<noteq> [] \<and> list_all isDigit s \<and> 0 < digitsValue s"

definition spec_wellformed :: "jsstring \<Rightarrow> bool" where
  "spec_wellformed h \<longleftrightarrow>
     (let fields = String_split dollar h
      in length fields = 4 \<and> fields ! 0 = js ''pbkdf2_sha256'' \<and> positive_decimal (fields ! 1)
         \<and> list_all (\<lambda>f. f \<noteq> []) fields)"

definition wellformed_hex :: "jsstring \<Rightarrow> bool" where
  "wellformed_hex s \<longleftrightarrow> even (length s) \<and> list_all isHexDigit s"

text \<open>
  A well-formed base64 field: characters of the standard alphabet, then at most two
  \<open>=\<close>, a multiple of four characters in all.
\<close>

definition isBase64Char :: "u16 \<Rightarrow> bool" where
  "isBase64Char c \<longleftrightarrow>
     (0x41 \<le> c \<and> c \<le> 0x5A) \<or> (0x61 \<le> c \<and> c \<le> 0x7A) \<or> (0x30 \<le> c \<and> c \<le> 0x39)
     \<or> c = 0x2B \<or> c = 0x2F"

definition wellformed_base64 :: "jsstring \<Rightarrow> bool" where
  "wellformed_base64 s \<longleftrightarrow>
     length s mod 4 = 0
     \<and> list_all isBase64Char (takeWhile (\<lambda>c. c \<noteq> 0x3D) s)
     \<and> length (dropWhile (\<lambda>c. c \<noteq> 0x3D) s) \<le> 2
     \<and> list_all (\<lambda>c. c = 0x3D) (dropWhile (\<lambda>c. c \<noteq> 0x3D) s)"

section \<open>Strings, encodings and decodings\<close>

text \<open>
  The characters of the two alphabets are ASCII, so the decoders' look-up by the low
  byte finds the value that the encoder wrote. From this: decoding after encoding is
  the identity, for hexadecimal and for base64 text; neither text contains \<open>$\<close>;
  and the base64 decoder reads hexadecimal text of \<open>n\<close> bytes as \<open>3 n / 2\<close> bytes.
\<close>

lemma unat_hexChar: "n < 16 \<Longrightarrow> unat (hexChar n) = (if n < 10 then 48 + n else 87 + n)"
  by (simp add: hexChar_def unat_of_nat del: of_nat_add)

lemma unat_base64Char:
  "n < 64 \<Longrightarrow> unat (base64Char n) =
     (if n < 26 then 65 + n else if n < 52 then 71 + n else if n < 62 then n - 4
      else if n = 62 then 43 else 47)"
  by (simp add: base64Char_def unat_of_nat del: of_nat_add of_nat_diff)

lemma unat_lowByte: "unat c < 256 \<Longrightarrow> unat (lowByte c) = unat c"
  by (simp add: lowByte_def unsigned_ucast_eq take_bit_eq_mod)

lemma unat_lowByte_hexChar: "n < 16 \<Longrightarrow> unat (lowByte (hexChar n)) = unat (hexChar n)"
  by (rule unat_lowByte) (simp add: unat_hexChar)

lemma unat_lowByte_base64Char:
  "n < 64 \<Longrightarrow> unat (lowByte (base64Char n)) = unat (base64Char n)"
  by (rule unat_lowByte) (auto simp add: unat_base64Char)


lemma unbase64_unat:
  "unbase64 c = (let k = unat c in
     if 65 \<le> k \<and> k \<le> 90 then Some (k - 65)
     else if 97 \<le> k \<and> k \<le> 122 then Some (k - 71)
     else if 48 \<le> k \<and> k \<le> 57 then Some (k + 4)
     else if k = 43 \<or> k = 45 then Some 62
     else if k = 47 \<or> k = 95 then Some 63 else None)"
  by (simp add: unbase64_def word_le_nat_alt Let_def word_eq_iff_unsigned [where 'a = nat])


lemma unbase64_base64Char: "n < 64 \<Longrightarrow> unbase64 (lowByte (base64Char n)) = Some n"
  by (auto simp add: unbase64_unat unat_base64Char unat_lowByte_base64Char Let_def)

lemma unbase64_hexChar: "n < 16 \<Longrightarrow> unbase64 (lowByte (hexChar n)) \<noteq> None"
  by (simp add: unbase64_unat unat_hexChar unat_lowByte_hexChar)

lemma neq_by_unat: "unat c \<noteq> unat d \<Longrightarrow> c \<noteq> d"
  by auto

lemma hexChar_neq_dollar: "n < 16 \<Longrightarrow> hexChar n \<noteq> dollar"
  by (rule neq_by_unat) (simp add: unat_hexChar dollar_def)

lemma hexChar_neq_pad: "n < 16 \<Longrightarrow> lowByte (hexChar n) \<noteq> 0x3D"
  by (rule neq_by_unat) (simp add: unat_hexChar unat_lowByte_hexChar)

lemma base64Char_neq_dollar: "n < 64 \<Longrightarrow> base64Char n \<noteq> dollar"
  by (rule neq_by_unat) (auto simp add: unat_base64Char dollar_def)

lemma base64Char_neq_pad: "n < 64 \<Longrightarrow> lowByte (base64Char n) \<noteq> 0x3D"
  by (rule neq_by_unat) (auto simp add: unat_base64Char unat_lowByte_base64Char)

lemma length_toString_hex: "length (toString_hex bs) = 2 * length bs"
  by (induction bs) (simp_all add: toString_hex_def)

lemma toString_hex_Cons:
  "toString_hex (b # bs) = hexChar (unat b div 16) # hexChar (unat b mod 16) # toString_hex bs"
  by (simp add: toString_hex_def)

lemma toString_hex_Nil: "toString_hex [] = []"
  by (simp add: toString_hex_def)

lemma unat_byte: "unat (b :: byte) < 256"
  using unsigned_less [of b, where 'a = nat] by simp

lemma unat_byte_div16: "unat (b :: byte) div 16 < 16"
  using unat_byte [of b] by simp


lemma dollar_notin_hex: "dollar \<notin> set (toString_hex bs)"
proof (induction bs)
  case Nil
  show ?case by (simp add: toString_hex_Nil)
next
  case (Cons b bs)
  have "hexChar (unat b div 16) \<noteq> dollar" "hexChar (unat b mod 16) \<noteq> dollar"
    by (simp_all add: hexChar_neq_dollar unat_byte_div16)
  with Cons show ?case by (auto simp add: toString_hex_Cons)
qed

lemma sextets_Nil: "sextets [] = []"
  by (simp add: sextets_def List.map_filter_simps)

lemma sextets_pad: "sextets (0x3D # cs) = []"
  by (simp add: sextets_def List.map_filter_simps lowByte_def)

lemma sextets_base64Char: "n < 64 \<Longrightarrow> sextets (base64Char n # cs) = n # sextets cs"
  by (simp add: sextets_def List.map_filter_simps base64Char_neq_pad unbase64_base64Char)

lemma sextet_bounds:
  fixes a b c :: byte
  shows "unat a div 4 < 64" "unat a mod 4 * 16 + unat b div 16 < 64"
    "unat b mod 16 * 4 + unat c div 64 < 64" "unat c mod 64 < 64"
    "unat a mod 4 * 16 < 64" "unat b mod 16 * 4 < 64"
  using unat_byte [of a] unat_byte [of b] unat_byte [of c] by auto

lemma repack1:
  fixes a b :: byte
  shows "unat a div 4 * 4 + (unat a mod 4 * 16 + unat b div 16) div 16 = unat a"
  using unat_byte [of b] by simp

lemma repack2:
  fixes b c :: byte
  shows "(unat a mod 4 * 16 + unat b div 16) mod 16 * 16 + (unat b mod 16 * 4 + unat c div 64) div 4 = unat b"
  using unat_byte [of b] unat_byte [of c] by simp

lemma repack3:
  fixes b c :: byte
  shows "(unat b mod 16 * 4 + unat c div 64) mod 4 * 64 + unat c mod 64 = unat c"
  using unat_byte [of c] by simp

lemma repack4:
  fixes a :: byte
  shows "unat a div 4 * 4 + (unat a mod 4 * 16) div 16 = unat a"
  by simp

lemma repack5:
  fixes a b :: byte
  shows "(unat a mod 4 * 16 + unat b div 16) mod 16 * 16 + (unat b mod 16 * 4) div 4 = unat b"
  using unat_byte [of b] by simp

lemma packSextets_encode3:
  fixes a b c :: byte
  shows "packSextets (unat a div 4 # (unat a mod 4 * 16 + unat b div 16)
            # (unat b mod 16 * 4 + unat c div 64) # unat c mod 64 # rest)
         = a # b # c # packSextets rest"
  by (simp only: packSextets.simps repack1 repack2 repack3 append.simps) simp

lemma packSextets_encode2:
  fixes a b :: byte
  shows "packSextets [unat a div 4, unat a mod 4 * 16 + unat b div 16, unat b mod 16 * 4] = [a, b]"
  by (simp only: packSextets.simps repack1 repack5) simp

lemma packSextets_encode1:
  fixes a :: byte
  shows "packSextets [unat a div 4, unat a mod 4 * 16] = [a]"
  by (simp only: packSextets.simps repack4) simp

lemma from_base64_toString_base64: "from_base64 (toString_base64 bs) = bs"
proof (induction bs rule: toString_base64.induct)
  case (1 a b c rest)
  then show ?case
    by (simp only: from_base64_def toString_base64.simps append.simps sextets_base64Char
          sextet_bounds packSextets_encode3)
next
  case (2 a b)
  show ?case
    by (simp only: from_base64_def toString_base64.simps sextets_base64Char
          sextet_bounds sextets_pad packSextets_encode2)
next
  case (3 a)
  show ?case
    by (simp only: from_base64_def toString_base64.simps sextets_base64Char
          sextet_bounds sextets_pad packSextets_encode1)
next
  case 4
  show ?case
    by (simp add: from_base64_def sextets_Nil)
qed

lemma dollar_neq_pad: "dollar \<noteq> 0x3D"
  by (simp add: dollar_def)

lemma dollar_notin_base64: "dollar \<notin> set (toString_base64 bs)"
  by (induction bs rule: toString_base64.induct)
     (simp_all add: base64Char_neq_dollar [symmetric] sextet_bounds dollar_neq_pad)

lemma length_toString_base64: "length (toString_base64 bs) = 4 * ((length bs + 2) div 3)"
  by (induction bs rule: toString_base64.induct) (simp_all, arith)

lemma length_packSextets: "length (packSextets xs) = 3 * length xs div 4"
  by (induction xs rule: packSextets.induct) auto

lemma length_sextets_hex: "length (sextets (toString_hex bs)) = 2 * length bs"
proof (induction bs)
  case Nil
  show ?case by (simp add: toString_hex_Nil sextets_Nil)
next
  case (Cons b bs)
  have *: "n < 16 \<Longrightarrow> length (sextets (hexChar n # cs)) = Suc (length (sextets cs))" for n cs
    using unbase64_hexChar [of n] hexChar_neq_pad [of n]
    by (auto simp add: sextets_def List.map_filter_simps)
  show ?case using Cons
    by (simp add: toString_hex_Cons * unat_byte_div16)
qed

lemma length_from_base64_hex: "length (from_base64 (toString_hex bs)) = 3 * length bs div 2"
  by (simp add: from_base64_def length_packSextets length_sextets_hex)

text \<open>Splitting a text built from fields that do not contain the separator.\<close>

lemma String_split_nonempty: "String_split sep s \<noteq> []"
  by (induction s) (auto split: list.splits)

lemma String_split_no_sep: "sep \<notin> set a \<Longrightarrow> String_split sep a = [a]"
  by (induction a) auto

lemma String_split_append:
  "sep \<notin> set a \<Longrightarrow> String_split sep (a @ sep # rest) = a # String_split sep rest"
  by (induction a) auto

lemma String_split_four:
  assumes "sep \<notin> set a" "sep \<notin> set b" "sep \<notin> set c" "sep \<notin> set d"
  shows "String_split sep (a @ [sep] @ b @ [sep] @ c @ [sep] @ d) = [a, b, c, d]"
  using assms by (simp add: String_split_append String_split_no_sep)

section \<open>The shape of a produced hash and what verification does with it\<close>

text \<open>
  \<open>hashPassword\<close> as one equation per mode, given what the primitives returned;
  \<open>verifyPassword\<close> as one equation on every hash that passes its checks, and on
  the hashes of either format in either mode.
\<close>

lemma js_literals:
  "js ''pbkdf2_'' @ js ''sha256'' = js ''pbkdf2_sha256''"
  "dollar \<notin> set (js ''pbkdf2_sha256'')"
  "dollar \<notin> set (js ''150000'')"
  "dollar \<notin> set (js ''100000'')"
  by (simp_all add: js_def dollar_def)

lemma Number_toString_iterations:
  "Number_toString 150000 = js ''150000''"
  "Number_toString 100000 = js ''100000''"
  by (simp_all add: Number_toString_def decimal.simps js_def)

lemma parseInt_iterations:
  "parseInt (js ''150000'') = Some 150000"
  "parseInt (js ''100000'') = Some 100000"
  by (simp_all add: parseInt_def js_def isWhiteSpace_def isDigit_def digitsValue_def)

lemma hashPassword_current:
  assumes "6 \<le> length (trim p)" and "legacy opts \<noteq> Some True" and "r 16 = Inr s"
    and "k p (SaltBuffer s) 150000 32 (js ''sha256'') = Inr key"
  shows "hashPassword r k p opts =
           (Inr (js ''pbkdf2_sha256'' @ [dollar] @ js ''150000'' @ [dollar]
                   @ toString_base64 s @ [dollar] @ toString_base64 key),
            [RandomBytes 16, Pbkdf2 p (SaltBuffer s) 150000 32 (js ''sha256'')])"
  using assms
  by (simp add: hashPassword_def Buffer_toString_def Number_toString_iterations Let_def
        js_literals(1) [symmetric])

lemma hashPassword_legacy:
  assumes "6 \<le> length (trim p)" and "legacy opts = Some True" and "r 16 = Inr s"
    and "k p (SaltString (toString_hex s)) 100000 64 (js ''sha256'') = Inr key"
  shows "hashPassword r k p opts =
           (Inr (js ''pbkdf2_sha256'' @ [dollar] @ js ''100000'' @ [dollar]
                   @ toString_hex s @ [dollar] @ toString_hex key),
            [RandomBytes 16, Pbkdf2 p (SaltString (toString_hex s)) 100000 64 (js ''sha256'')])"
  using assms
  by (simp add: hashPassword_def parsePassword_def Number_toString_iterations Let_def
        js_literals(1) [symmetric])

lemma verifyPassword_fields:
  assumes "String_split dollar h = js ''pbkdf2_sha256'' # its # salt # key # extra"
    and "parseInt its = Some n"
  shows "verifyPassword k p h opts =
           (let enc = (if legacy opts = Some True then Hex else Base64);
                dk = Buffer_from key enc;
                saltArg = (if legacy opts = Some True
                           then SaltString (toString_hex (from_hex salt))
                           else SaltBuffer (from_base64 salt));
                derive = Pbkdf2 p saltArg n (length dk) (js ''sha256'')
            in case k p saltArg n (length dk) (js ''sha256'') of
                 Inl e \<Rightarrow> (Inl (CryptoBackendError e), [derive])
               | Inr pw \<Rightarrow> (timingSafeEqual pw dk, [derive, TimingSafeEqual pw dk]))"
  using assms
  by (simp add: verifyPassword_def destructure_def Let_def Buffer_from_def Buffer_toString_def
        split: sum.split)

lemma not_rejected_fields:
  assumes "\<not> rejected h"
  shows "\<exists>its salt key extra n.
           String_split dollar h = js ''pbkdf2_sha256'' # its # salt # key # extra
           \<and> parseInt its = Some n"
proof -
  let ?fs = "String_split dollar h"
  from assms have len: "4 \<le> length ?fs" and alg: "?fs ! 0 = js ''pbkdf2_sha256''"
    and its: "parseInt (?fs ! 1) \<noteq> None"
    by (simp_all add: rejected_def Let_def)
  from len obtain a b c d extra where fs: "?fs = a # b # c # d # extra"
    by (cases ?fs rule: list.exhaust; simp; metis Suc_le_length_iff numeral_3_eq_3 One_nat_def)
  with alg its show ?thesis by auto
qed

lemma rejected_result:
  assumes "rejected h"
  shows "\<exists>msg. verifyPassword k p h opts = (Inl (AssertionError msg), [])"
  using assms String_split_nonempty [of dollar h]
  by (auto simp add: rejected_def verifyPassword_def destructure_def Let_def
        split: option.splits)

lemma split_current_hash:
  "String_split dollar (js ''pbkdf2_sha256'' @ [dollar] @ js ''150000'' @ [dollar]
      @ toString_base64 s @ [dollar] @ toString_base64 key)
   = [js ''pbkdf2_sha256'', js ''150000'', toString_base64 s, toString_base64 key]"
  by (rule String_split_four) (simp_all add: js_literals dollar_notin_base64)

lemma split_legacy_hash:
  "String_split dollar (js ''pbkdf2_sha256'' @ [dollar] @ js ''100000'' @ [dollar]
      @ toString_hex s @ [dollar] @ toString_hex key)
   = [js ''pbkdf2_sha256'', js ''100000'', toString_hex s, toString_hex key]"
  by (rule String_split_four) (simp_all add: js_literals dollar_notin_hex)

lemma verify_current_hash:
  assumes "legacy opts \<noteq> Some True"
  shows "verifyPassword k q (js ''pbkdf2_sha256'' @ [dollar] @ js ''150000'' @ [dollar]
            @ toString_base64 s @ [dollar] @ toString_base64 key) opts
         = (case k q (SaltBuffer s) 150000 (length key) (js ''sha256'') of
              Inl e \<Rightarrow> (Inl (CryptoBackendError e),
                         [Pbkdf2 q (SaltBuffer s) 150000 (length key) (js ''sha256'')])
            | Inr pw \<Rightarrow> (timingSafeEqual pw key,
                          [Pbkdf2 q (SaltBuffer s) 150000 (length key) (js ''sha256''),
                           TimingSafeEqual pw key]))"
  using assms
  by (subst verifyPassword_fields [OF split_current_hash parseInt_iterations(1)])
     (simp add: Buffer_from_def from_base64_toString_base64 split: sum.split)


lemma verify_legacy_hash_as_current:
  assumes "legacy opts \<noteq> Some True"
  shows "verifyPassword k q (js ''pbkdf2_sha256'' @ [dollar] @ js ''100000'' @ [dollar]
            @ toString_hex s @ [dollar] @ toString_hex key) opts
         = (case k q (SaltBuffer (from_base64 (toString_hex s))) 100000
                  (3 * length key div 2) (js ''sha256'') of
              Inl e \<Rightarrow> (Inl (CryptoBackendError e),
                         [Pbkdf2 q (SaltBuffer (from_base64 (toString_hex s))) 100000
                            (3 * length key div 2) (js ''sha256'')])
            | Inr pw \<Rightarrow> (timingSafeEqual pw (from_base64 (toString_hex key)),
                          [Pbkdf2 q (SaltBuffer (from_base64 (toString_hex s))) 100000
                             (3 * length key div 2) (js ''sha256''),
                           TimingSafeEqual pw (from_base64 (toString_hex key))]))"
  using assms
  by (subst verifyPassword_fields [OF split_legacy_hash parseInt_iterations(2)])
     (simp add: Buffer_from_def length_from_base64_hex Let_def split: sum.split)

lemma pbkdf2_contractD:
  "pbkdf2_contract k \<Longrightarrow> 1 \<le> i \<Longrightarrow> i < 2 ^ 31 \<Longrightarrow> 1 \<le> n \<Longrightarrow> int n < 2 ^ 31 \<Longrightarrow>
     \<exists>key. k p s i n (js ''sha256'') = Inr key \<and> length key = n"
  unfolding pbkdf2_contract_def by blast

lemma randomBytes_contractD:
  "randomBytes_contract r \<Longrightarrow> \<exists>bs. r n = Inr bs \<and> length bs = n"
  unfolding randomBytes_contract_def by blast

lemma pbkdf2_lengthD: "pbkdf2_length k \<Longrightarrow> k p s i n d = Inr key \<Longrightarrow> length key = n"
  unfolding pbkdf2_length_def by blast

lemma demo_randomBytes_contract: "randomBytes_contract demo_randomBytes"
  by (simp add: randomBytes_contract_def demo_randomBytes_def)

lemma demo_pbkdf2_contract: "pbkdf2_contract demo_pbkdf2"
  by (simp add: pbkdf2_contract_def demo_pbkdf2_def)

lemma demo_pbkdf2_length: "pbkdf2_length demo_pbkdf2"
  by (auto simp add: pbkdf2_length_def demo_pbkdf2_def split: if_splits)

lemma trim_secret: "length (trim (js ''secret'')) = 6"
  by (simp add: trim_def js_def isWhiteSpace_def)

lemma js_prefixes:
  "js ''pbkdf2_sha256$150000$'' = js ''pbkdf2_sha256'' @ [dollar] @ js ''150000'' @ [dollar]"
  "js ''pbkdf2_sha256$100000$'' = js ''pbkdf2_sha256'' @ [dollar] @ js ''100000'' @ [dollar]"
  "js ''$'' = [dollar]"
  by (simp_all add: js_def dollar_def)

section \<open>Calls made by hashing, and concrete evaluations\<close>












lemma verify_examples:
  "verifyPassword demo_pbkdf2 (js ''secret'') (js ''pbkdf2_sha256$3$AA==$AAAA'') \<lparr>legacy = None\<rparr>
   = (Inr False,
      [Pbkdf2 (js ''secret'') (SaltBuffer [0]) 3 3 (js ''sha256''),
       TimingSafeEqual [134, 135, 136] [0, 0, 0]])"
  "verifyPassword demo_pbkdf2 (js ''secret'') (js ''pbkdf2_sha256$3$AA==$AAAA$extra'')
     \<lparr>legacy = None\<rparr>
   = (Inr False,
      [Pbkdf2 (js ''secret'') (SaltBuffer [0]) 3 3 (js ''sha256''),
       TimingSafeEqual [134, 135, 136] [0, 0, 0]])"
  "verifyPassword demo_pbkdf2 (js ''secret'') (js ''pbkdf2_sha256$2abc$AA==$AAAA'')
     \<lparr>legacy = None\<rparr>
   = (Inr False,
      [Pbkdf2 (js ''secret'') (SaltBuffer [0]) 2 3 (js ''sha256''),
       TimingSafeEqual [134, 135, 136] [0, 0, 0]])"
  "verifyPassword demo_pbkdf2 (js ''secret'') (js ''pbkdf2_sha256$-5$AA==$AAAA'')
     \<lparr>legacy = None\<rparr>
   = (Inl (CryptoBackendError ''ERR_OUT_OF_RANGE''),
      [Pbkdf2 (js ''secret'') (SaltBuffer [0]) (- 5) 3 (js ''sha256'')])"
  "verifyPassword demo_pbkdf2 (js ''secret'') (js ''pbkdf2_sha256$1$0g$00zz'')
     \<lparr>legacy = Some True\<rparr>
   = (Inr False,
      [Pbkdf2 (js ''secret'') (SaltString []) 1 1 (js ''sha256''),
       TimingSafeEqual [134] [0]])"
  "verifyPassword demo_pbkdf2 (js ''secret'') (js ''pbkdf2_sha256$1$!!!!$AA*A'')
     \<lparr>legacy = None\<rparr>
   = (Inr False,
      [Pbkdf2 (js ''secret'') (SaltBuffer []) 1 2 (js ''sha256''),
       TimingSafeEqual [134, 135] [0, 0]])"
  by code_simp+

lemma outside_the_grammar:
  "\<not> spec_wellformed (js ''pbkdf2_sha256$3$AA==$AAAA$extra'')"
  "\<not> spec_wellformed (js ''pbkdf2_sha256$2abc$AA==$AAAA'')"
  "\<not> spec_wellformed (js ''pbkdf2_sha256$-5$AA==$AAAA'')"
  "\<not> wellformed_hex (js ''0g'')"
  "\<not> wellformed_hex (js ''00zz'')"
  "\<not> wellformed_base64 (js ''!!!!'')"
  "\<not> wellformed_base64 (js ''AA*A'')"
  by code_simp+



lemma rejected_too_few_fields: "rejected (js ''not$enough$fields'')"
  by (simp add: rejected_def js_def dollar_def)

lemma not_rejected_malformed_hex: "\<not> rejected (js ''pbkdf2_sha256$1$0g$00zz'')"
  by (simp add: rejected_def js_def dollar_def parseInt_def isWhiteSpace_def isDigit_def
        digitsValue_def)

section \<open>Hashing\<close>

text \<open>
  C6. A plaintext whose length after trimming white space is below 6 (the empty string
  and strings of white space included) is turned down by \<open>hashPassword\<close> with the
  error "Password invalid: too short", in legacy and in current mode, and before
  anything else happens: no call to \<open>randomBytes\<close> or \<open>pbkdf2\<close> is made, whatever
  these primitives would have returned.
\<close>

theorem hashPassword_too_short:
  "length (trim p) < 6 \<Longrightarrow>
     hashPassword r k p opts = (Inl (Error ''Password invalid: too short''), [])"
  by (simp add: hashPassword_def)

theorem hashPassword_too_short_witness:
  "length (trim (js ''  ab   '')) < 6
   \<and> hashPassword demo_randomBytes demo_pbkdf2 (js ''  ab   '') \<lparr>legacy = Some True\<rparr>
       = (Inl (Error ''Password invalid: too short''), [])"
proof -
  have short: "length (trim (js ''  ab   '')) < 6"
    by (simp add: trim_def js_def isWhiteSpace_def)
  from short hashPassword_too_short [OF short, of demo_randomBytes demo_pbkdf2 "\<lparr>legacy = Some True\<rparr>"]
  show ?thesis by simp
qed

text \<open>
  C7. For a valid password, with primitives that honour their interface, the current
  mode returns \<open>pbkdf2_sha256$150000$\<close>, the base64 text of the 16 salt bytes (24
  characters), \<open>$\<close>, and the base64 text of the 32 bytes of the derived key (44
  characters); the legacy mode returns \<open>pbkdf2_sha256$100000$\<close>, the hexadecimal
  text of the 16 salt bytes (32 characters), \<open>$\<close>, and the hexadecimal text of the
  64 bytes of the derived key (128 characters).
\<close>

theorem hashPassword_shape:
  assumes "randomBytes_contract r" and "pbkdf2_contract k" and "6 \<le> length (trim p)"
  shows "(\<exists>salt key. r 16 = Inr salt \<and> length salt = 16
            \<and> k p (SaltBuffer salt) 150000 32 (js ''sha256'') = Inr key \<and> length key = 32
            \<and> fst (hashPassword r k p \<lparr>legacy = None\<rparr>)
                = Inr (js ''pbkdf2_sha256$150000$'' @ toString_base64 salt @ js ''$''
                         @ toString_base64 key)
            \<and> length (toString_base64 salt) = 24 \<and> length (toString_base64 key) = 44)
       \<and> (\<exists>salt key. r 16 = Inr salt \<and> length salt = 16
            \<and> k p (SaltString (toString_hex salt)) 100000 64 (js ''sha256'') = Inr key
            \<and> length key = 64
            \<and> fst (hashPassword r k p \<lparr>legacy = Some True\<rparr>)
                = Inr (js ''pbkdf2_sha256$100000$'' @ toString_hex salt @ js ''$''
                         @ toString_hex key)
            \<and> length (toString_hex salt) = 32 \<and> length (toString_hex key) = 128)"
proof -
  from randomBytes_contractD [OF assms(1), of 16]
  obtain s where s: "r 16 = Inr s" and ls: "length s = 16" by blast
  from pbkdf2_contractD [OF assms(2), of 150000 32 p "SaltBuffer s"]
  obtain key where key: "k p (SaltBuffer s) 150000 32 (js ''sha256'') = Inr key"
    and lk: "length key = 32" by auto
  from pbkdf2_contractD [OF assms(2), of 100000 64 p "SaltString (toString_hex s)"]
  obtain key' where key': "k p (SaltString (toString_hex s)) 100000 64 (js ''sha256'') = Inr key'"
    and lk': "length key' = 64" by auto
  have current: "fst (hashPassword r k p \<lparr>legacy = None\<rparr>)
      = Inr (js ''pbkdf2_sha256$150000$'' @ toString_base64 s @ js ''$'' @ toString_base64 key)"
    using assms(3) s key hashPassword_current [of p "\<lparr>legacy = None\<rparr>" r s k key]
    by (simp add: js_prefixes)
  have legacy: "fst (hashPassword r k p \<lparr>legacy = Some True\<rparr>)
      = Inr (js ''pbkdf2_sha256$100000$'' @ toString_hex s @ js ''$'' @ toString_hex key')"
    using assms(3) s key' hashPassword_legacy [of p "\<lparr>legacy = Some True\<rparr>" r s k key']
    by (simp add: js_prefixes)
  have "length (toString_base64 s) = 24" "length (toString_base64 key) = 44"
    "length (toString_hex s) = 32" "length (toString_hex key') = 128"
    by (simp_all add: length_toString_base64 length_toString_hex ls lk lk')
  with s ls key lk key' lk' current legacy show ?thesis by blast
qed

theorem hashPassword_shape_witness:
  "randomBytes_contract demo_randomBytes \<and> pbkdf2_contract demo_pbkdf2
   \<and> 6 \<le> length (trim (js ''secret''))
   \<and> (\<exists>salt key. length salt = 16 \<and> length key = 32
          \<and> fst (hashPassword demo_randomBytes demo_pbkdf2 (js ''secret'') \<lparr>legacy = None\<rparr>)
              = Inr (js ''pbkdf2_sha256$150000$'' @ toString_base64 salt @ js ''$''
                       @ toString_base64 key))
   \<and> (\<exists>salt key. length salt = 16 \<and> length key = 64
          \<and> fst (hashPassword demo_randomBytes demo_pbkdf2 (js ''secret'') \<lparr>legacy = Some True\<rparr>)
              = Inr (js ''pbkdf2_sha256$100000$'' @ toString_hex salt @ js ''$''
                       @ toString_hex key))"
proof -
  have valid: "6 \<le> length (trim (js ''secret''))"
    by (simp add: trim_secret)
  from hashPassword_shape [OF demo_randomBytes_contract demo_pbkdf2_contract valid]
  have "(\<exists>salt key. length salt = 16 \<and> length key = 32
          \<and> fst (hashPassword demo_randomBytes demo_pbkdf2 (js ''secret'') \<lparr>legacy = None\<rparr>)
              = Inr (js ''pbkdf2_sha256$150000$'' @ toString_base64 salt @ js ''$''
                       @ toString_base64 key))
   \<and> (\<exists>salt key. length salt = 16 \<and> length key = 64
          \<and> fst (hashPassword demo_randomBytes demo_pbkdf2 (js ''secret'') \<lparr>legacy = Some True\<rparr>)
              = Inr (js ''pbkdf2_sha256$100000$'' @ toString_hex salt @ js ''$''
                       @ toString_hex key))"
    by blast
  with demo_randomBytes_contract demo_pbkdf2_contract valid show ?thesis by blast
qed





section \<open>Verification\<close>

text \<open>
  C1, as the specification states it, fails. Three hashes outside the grammar of the
  specification: one with five fields, one with the iteration field \<open>2abc\<close>, one
  with the iteration field \<open>-5\<close>. For none of them \<open>verifyPassword\<close> raises an
  assertion error: each time it calls the KDF (with 3, 2 and -5 iterations), and for the
  first two it returns a boolean. The empty salt and key of C2 are a fourth case.
\<close>

theorem verifyPassword_loose_validation_counterexample:
  "\<not> spec_wellformed (js ''pbkdf2_sha256$3$AA==$AAAA$extra'')
   \<and> verifyPassword demo_pbkdf2 (js ''secret'') (js ''pbkdf2_sha256$3$AA==$AAAA$extra'')
         \<lparr>legacy = None\<rparr>
       = (Inr False,
          [Pbkdf2 (js ''secret'') (SaltBuffer [0]) 3 3 (js ''sha256''),
           TimingSafeEqual [134, 135, 136] [0, 0, 0]])
   \<and> \<not> spec_wellformed (js ''pbkdf2_sha256$2abc$AA==$AAAA'')
   \<and> verifyPassword demo_pbkdf2 (js ''secret'') (js ''pbkdf2_sha256$2abc$AA==$AAAA'')
         \<lparr>legacy = None\<rparr>
       = (Inr False,
          [Pbkdf2 (js ''secret'') (SaltBuffer [0]) 2 3 (js ''sha256''),
           TimingSafeEqual [134, 135, 136] [0, 0, 0]])
   \<and> \<not> spec_wellformed (js ''pbkdf2_sha256$-5$AA==$AAAA'')
   \<and> verifyPassword demo_pbkdf2 (js ''secret'') (js ''pbkdf2_sha256$-5$AA==$AAAA'')
         \<lparr>legacy = None\<rparr>
       = (Inl (CryptoBackendError ''ERR_OUT_OF_RANGE''),
          [Pbkdf2 (js ''secret'') (SaltBuffer [0]) (- 5) 3 (js ''sha256'')])"
  by (simp only: verify_examples outside_the_grammar simp_thms)

text \<open>
  C1, amended. \<open>verifyPassword\<close> fails with an assertion error, and without any call
  to a crypto primitive, exactly for the rejected hashes: fewer than four fields, a
  first field other than \<open>pbkdf2_sha256\<close>, or an iteration field for which
  \<open>parseInt\<close> gives \<open>NaN\<close>. Every other hash (with fields beyond the fourth, with
  an empty salt or key, with an iteration field such as \<open>0\<close>, \<open>-5\<close> or
  \<open>2abc\<close>) passes the checks and reaches the KDF.
\<close>

theorem verifyPassword_validation:
  "((\<exists>msg. verifyPassword k p h opts = (Inl (AssertionError msg), [])) \<longleftrightarrow> rejected h)
   \<and> (snd (verifyPassword k p h opts) = [] \<longleftrightarrow> rejected h)"
proof (cases "rejected h")
  case True
  from rejected_result [OF True, of k p opts] True show ?thesis by auto
next
  case False
  from not_rejected_fields [OF False] obtain its salt key extra n
    where fields: "String_split dollar h = js ''pbkdf2_sha256'' # its # salt # key # extra"
      and its: "parseInt its = Some n" by blast
  have "snd (verifyPassword k p h opts) \<noteq> []"
    by (simp add: verifyPassword_fields [OF fields its] Let_def split: sum.split)
  with False show ?thesis by auto
qed

theorem verifyPassword_validation_witness:
  "rejected (js ''not$enough$fields'')
   \<and> (\<exists>msg. verifyPassword demo_pbkdf2 (js ''secret'') (js ''not$enough$fields'') \<lparr>legacy = None\<rparr>
              = (Inl (AssertionError msg), []))
   \<and> snd (verifyPassword demo_pbkdf2 (js ''secret'') (js ''not$enough$fields'') \<lparr>legacy = None\<rparr>) = []
   \<and> \<not> rejected (js ''pbkdf2_sha256$1$0g$00zz'')
   \<and> snd (verifyPassword demo_pbkdf2 (js ''secret'') (js ''pbkdf2_sha256$1$0g$00zz'')
            \<lparr>legacy = Some True\<rparr>) \<noteq> []"
  using rejected_too_few_fields not_rejected_malformed_hex
    verifyPassword_validation [of demo_pbkdf2 "js ''secret''" "js ''not$enough$fields''"
      "\<lparr>legacy = None\<rparr>"]
    verifyPassword_validation [of demo_pbkdf2 "js ''secret''" "js ''pbkdf2_sha256$1$0g$00zz''"
      "\<lparr>legacy = Some True\<rparr>"]
  by blast




text \<open>
  C5, as the specification states it, fails. In legacy mode the salt \<open>0g\<close> and the
  key \<open>00zz\<close> are not hexadecimal text; \<open>verifyPassword\<close> decodes them to the
  empty buffer and to one zero byte, calls the KDF and returns false. In current mode
  the salt \<open>!!!!\<close> and the key \<open>AA*A\<close> are not base64 text; they are decoded
  to the empty buffer and to two zero bytes, and again the KDF is called and the result
  is false.
\<close>

theorem verifyPassword_malformed_encoding_counterexample:
  "\<not> wellformed_hex (js ''0g'') \<and> \<not> wellformed_hex (js ''00zz'')
   \<and> verifyPassword demo_pbkdf2 (js ''secret'') (js ''pbkdf2_sha256$1$0g$00zz'')
         \<lparr>legacy = Some True\<rparr>
       = (Inr False,
          [Pbkdf2 (js ''secret'') (SaltString []) 1 1 (js ''sha256''),
           TimingSafeEqual [134] [0]])
   \<and> \<not> wellformed_base64 (js ''!!!!'') \<and> \<not> wellformed_base64 (js ''AA*A'')
   \<and> verifyPassword demo_pbkdf2 (js ''secret'') (js ''pbkdf2_sha256$1$!!!!$AA*A'')
         \<lparr>legacy = None\<rparr>
       = (Inr False,
          [Pbkdf2 (js ''secret'') (SaltBuffer []) 1 2 (js ''sha256''),
           TimingSafeEqual [134, 135] [0, 0]])"
  by (simp only: verify_examples outside_the_grammar simp_thms)

text \<open>
  C5, amended. Decoding never fails. For every hash that passes the checks, well-formed
  in its encoding or not, \<open>verifyPassword\<close> goes on to the KDF with what the lenient
  decoders read: the salt (in legacy mode its hexadecimal text), and as key length the
  number of bytes read from the key field. No assertion error is raised.
\<close>

theorem verifyPassword_decodes_leniently:
  assumes "\<not> rejected h"
  shows "\<exists>its salt key extra n.
           String_split dollar h = js ''pbkdf2_sha256'' # its # salt # key # extra
         \<and> parseInt its = Some n
         \<and> hd (snd (verifyPassword k p h opts))
             = Pbkdf2 p (if legacy opts = Some True
                         then SaltString (toString_hex (from_hex salt))
                         else SaltBuffer (from_base64 salt))
                 n (length (if legacy opts = Some True then from_hex key else from_base64 key))
                 (js ''sha256'')
         \<and> (\<forall>msg. fst (verifyPassword k p h opts) \<noteq> Inl (AssertionError msg))"
proof -
  from not_rejected_fields [OF assms] obtain its salt key extra n
    where fields: "String_split dollar h = js ''pbkdf2_sha256'' # its # salt # key # extra"
      and its: "parseInt its = Some n" by blast
  have "hd (snd (verifyPassword k p h opts))
             = Pbkdf2 p (if legacy opts = Some True
                         then SaltString (toString_hex (from_hex salt))
                         else SaltBuffer (from_base64 salt))
                 n (length (if legacy opts = Some True then from_hex key else from_base64 key))
                 (js ''sha256'')"
    by (simp add: verifyPassword_fields [OF fields its] Let_def Buffer_from_def split: sum.split)
  moreover have "\<forall>msg. fst (verifyPassword k p h opts) \<noteq> Inl (AssertionError msg)"
    by (simp add: verifyPassword_fields [OF fields its] Let_def timingSafeEqual_def
          split: sum.split)
  ultimately show ?thesis using fields its by blast
qed

theorem verifyPassword_decodes_leniently_witness:
  "\<not> rejected (js ''pbkdf2_sha256$1$0g$00zz'')
   \<and> (\<exists>its salt key extra n.
           String_split dollar (js ''pbkdf2_sha256$1$0g$00zz'')
             = js ''pbkdf2_sha256'' # its # salt # key # extra
         \<and> parseInt its = Some n
         \<and> hd (snd (verifyPassword demo_pbkdf2 (js ''secret'') (js ''pbkdf2_sha256$1$0g$00zz'')
                       \<lparr>legacy = Some True\<rparr>))
             = Pbkdf2 (js ''secret'') (SaltString (toString_hex (from_hex salt))) n
                 (length (from_hex key)) (js ''sha256''))"
proof -
  from verifyPassword_decodes_leniently [OF not_rejected_malformed_hex,
      of demo_pbkdf2 "js ''secret''" "\<lparr>legacy = Some True\<rparr>"]
  have "\<exists>its salt key extra n.
           String_split dollar (js ''pbkdf2_sha256$1$0g$00zz'')
             = js ''pbkdf2_sha256'' # its # salt # key # extra
         \<and> parseInt its = Some n
         \<and> hd (snd (verifyPassword demo_pbkdf2 (js ''secret'') (js ''pbkdf2_sha256$1$0g$00zz'')
                       \<lparr>legacy = Some True\<rparr>))
             = Pbkdf2 (js ''secret'') (SaltString (toString_hex (from_hex salt))) n
                 (length (from_hex key)) (js ''sha256'')"
    by simp blast
  with not_rejected_malformed_hex show ?thesis by blast
qed

text \<open>
  C9. When \<open>pbkdf2\<close> returns as many bytes as it is asked for, the key length that
  \<open>verifyPassword\<close> asks for is the byte length of the decoded stored key, every call
  of \<open>timingSafeEqual\<close> gets two buffers of equal length, and its length error never
  is the result.
\<close>

theorem verifyPassword_equal_lengths:
  assumes "pbkdf2_length k"
  shows "fst (verifyPassword k p h opts) \<noteq> Inl ERR_CRYPTO_TIMING_SAFE_EQUAL_LENGTH
       \<and> (\<forall>a b. TimingSafeEqual a b \<in> set (snd (verifyPassword k p h opts)) \<longrightarrow>
             length a = length b)
       \<and> (\<forall>q s i n d. Pbkdf2 q s i n d \<in> set (snd (verifyPassword k p h opts)) \<longrightarrow>
             (\<exists>key. destructure (String_split dollar h) 3 = Some key
                \<and> n = length (Buffer_from key
                                 (if legacy opts = Some True then Hex else Base64))))"
proof (cases "rejected h")
  case True
  from rejected_result [OF True, of k p opts] show ?thesis by auto
next
  case False
  from not_rejected_fields [OF False] obtain its salt key extra n
    where fields: "String_split dollar h = js ''pbkdf2_sha256'' # its # salt # key # extra"
      and its: "parseInt its = Some n" by blast
  let ?enc = "if legacy opts = Some True then Hex else Base64"
  let ?salt = "if legacy opts = Some True then SaltString (toString_hex (from_hex salt))
               else SaltBuffer (from_base64 salt)"
  have third: "destructure (String_split dollar h) 3 = Some key"
    by (simp add: fields destructure_def)
  show ?thesis
  proof (cases "k p ?salt n (length (Buffer_from key ?enc)) (js ''sha256'')")
    case (Inl e)
    with third show ?thesis
      by (simp add: verifyPassword_fields [OF fields its] Let_def)
  next
    case (Inr pw)
    from pbkdf2_lengthD [OF assms Inr] have "length pw = length (Buffer_from key ?enc)" .
    with Inr third show ?thesis
      by (simp add: verifyPassword_fields [OF fields its] Let_def timingSafeEqual_def)
  qed
qed

theorem verifyPassword_equal_lengths_witness:
  "pbkdf2_length demo_pbkdf2
   \<and> fst (verifyPassword demo_pbkdf2 (js ''secret'') (js ''pbkdf2_sha256$3$AA==$AAAA'')
            \<lparr>legacy = None\<rparr>) \<noteq> Inl ERR_CRYPTO_TIMING_SAFE_EQUAL_LENGTH
   \<and> snd (verifyPassword demo_pbkdf2 (js ''secret'') (js ''pbkdf2_sha256$3$AA==$AAAA'')
            \<lparr>legacy = None\<rparr>)
       = [Pbkdf2 (js ''secret'') (SaltBuffer [0]) 3 3 (js ''sha256''),
          TimingSafeEqual [134, 135, 136] [0, 0, 0]]
   \<and> length [134, 135, 136 :: byte] = length [0, 0, 0 :: byte]"
  using demo_pbkdf2_length
    verifyPassword_equal_lengths [OF demo_pbkdf2_length, of "js ''secret''"
      "js ''pbkdf2_sha256$3$AA==$AAAA''" "\<lparr>legacy = None\<rparr>"]
  by (simp add: verify_examples(1))

section \<open>Hashing, then verifying\<close>

text \<open>
  C3. For every password whose trimmed length is at least 6, with primitives that
  honour their interface, hashing in the default mode succeeds and verifying the same
  password against the hash just produced, in the default mode, returns true.
\<close>

theorem verify_after_hash:
  assumes "randomBytes_contract r" and "pbkdf2_contract k" and "6 \<le> length (trim p)"
  shows "\<exists>h. fst (hashPassword r k p \<lparr>legacy = None\<rparr>) = Inr h
             \<and> fst (verifyPassword k p h \<lparr>legacy = None\<rparr>) = Inr True"
proof -
  from randomBytes_contractD [OF assms(1), of 16]
  obtain s where s: "r 16 = Inr s" by blast
  from pbkdf2_contractD [OF assms(2), of 150000 32 p "SaltBuffer s"]
  obtain key where key: "k p (SaltBuffer s) 150000 32 (js ''sha256'') = Inr key"
    and len: "length key = 32" by auto
  have "fst (hashPassword r k p \<lparr>legacy = None\<rparr>) =
          Inr (js ''pbkdf2_sha256'' @ [dollar] @ js ''150000'' @ [dollar]
                 @ toString_base64 s @ [dollar] @ toString_base64 key)"
    using assms(3) s key
      hashPassword_current [of p "\<lparr>legacy = None\<rparr>" r s k key] by simp
  moreover have "fst (verifyPassword k p (js ''pbkdf2_sha256'' @ [dollar] @ js ''150000'' @ [dollar]
                 @ toString_base64 s @ [dollar] @ toString_base64 key) \<lparr>legacy = None\<rparr>) = Inr True"
    by (subst verify_current_hash) (simp_all add: len key timingSafeEqual_def)
  ultimately show ?thesis by blast
qed

theorem verify_after_hash_witness:
  "randomBytes_contract demo_randomBytes \<and> pbkdf2_contract demo_pbkdf2
   \<and> 6 \<le> length (trim (js ''secret''))
   \<and> (\<exists>h. fst (hashPassword demo_randomBytes demo_pbkdf2 (js ''secret'') \<lparr>legacy = None\<rparr>) = Inr h
          \<and> fst (verifyPassword demo_pbkdf2 (js ''secret'') h \<lparr>legacy = None\<rparr>) = Inr True)"
  using demo_randomBytes_contract demo_pbkdf2_contract trim_secret
    verify_after_hash [OF demo_randomBytes_contract demo_pbkdf2_contract, of "js ''secret''"]
  by simp

end
